theory Spec2Isabelle
  imports Main
begin

section \<open>The document and React primitives that Navigation.tsx relies on\<close>

text \<open>
  DOM nodes are identified by natural numbers. An event object carries the two flags that
  \<^verbatim>\<open>preventDefault()\<close> and \<^verbatim>\<open>stopPropagation()\<close> set; a keyboard event adds
  \<^verbatim>\<open>key\<close> and \<^verbatim>\<open>shiftKey\<close>.
\<close>

type_synonym element = nat

record dom_event =
  defaultPrevented :: bool
  propagationStopped :: bool

record keyboard_event = dom_event +
  key :: string
  shiftKey :: bool

text \<open>
  The two closures that the component registers for \<^verbatim>\<open>keydown\<close> on the document.
  \<^verbatim>\<open>handleEscape\<close> captures the \<^verbatim>\<open>isMobileMenuOpen\<close> of the render that created it;
  \<^verbatim>\<open>handleTabKey\<close> captures \<^verbatim>\<open>firstElement\<close> and \<^verbatim>\<open>lastElement\<close>
  (\<^verbatim>\<open>undefined\<close> is \<open>None\<close>).
\<close>

datatype listener =
    HandleEscape bool
  | HandleTabKey "element option" "element option"

text \<open>
  The argument of a \<^verbatim>\<open>setIsMobileMenuOpen\<close> call: a value, or the updater
  \<^verbatim>\<open>(prev) => !prev\<close>.
\<close>

datatype update = SetTo bool | Negate

text \<open>The functions returned by the three effects.\<close>

datatype cleanup = RemoveListener listener | ResetOverflow

text \<open>
  The component's state together with the parts of the document it reads and writes.
  \<^item> \<open>pending\<close>: the state updates queued by the handler that is running; React applies
    them when the handler has returned.
  \<^item> \<open>cleanups\<close>: the cleanup functions of the last commit, in effect order.
  \<^item> \<open>hamburgerButtonRef\<close>: \<^verbatim>\<open>hamburgerButtonRef.current\<close>.
  \<^item> \<open>mobileMenuRef\<close>: \<^verbatim>\<open>mobileMenuRef.current\<close> as the focus-trap effect reads it,
    given by the node list that \<^verbatim>\<open>querySelectorAll\<close> returns on it. The effect reads it
    only in a render with \<^verbatim>\<open>isMobileMenuOpen\<close> true; it is an input of the model and no
    handler changes it.
  \<^item> \<open>activeElement\<close>: \<^verbatim>\<open>document.activeElement\<close>.
  \<^item> \<open>bodyOverflow\<close>: \<^verbatim>\<open>document.body.style.overflow\<close>; \<open>overflowWrites\<close>
    lists every assignment to it, oldest first.
  \<^item> \<open>keydownListeners\<close>: the document's \<^verbatim>\<open>keydown\<close> listeners, in registration order.
  \<^item> \<open>elementsById\<close>: the elements that carry an \<^verbatim>\<open>id\<close>.
  \<^item> \<open>scrolledIntoView\<close>: the elements on which \<^verbatim>\<open>scrollIntoView\<close> was called.
\<close>

record nav =
  isMobileMenuOpen :: bool
  pending :: "update list"
  cleanups :: "cleanup list"
  hamburgerButtonRef :: "element option"
  mobileMenuRef :: "element list option"
  activeElement :: "element option"
  bodyOverflow :: string
  overflowWrites :: "string list"
  keydownListeners :: "listener list"
  elementsById :: "(string \<times> element) list"
  scrolledIntoView :: "element list"

text \<open>\<^verbatim>\<open>xs[i]\<close> of JavaScript: \<^verbatim>\<open>undefined\<close> outside the list.\<close>

definition index :: "'a list \<Rightarrow> int \<Rightarrow> 'a option" where
  "index xs i = (if 0 \<le> i \<and> i < int (length xs) then Some (xs ! nat i) else None)"

definition startsWith :: "string \<Rightarrow> string \<Rightarrow> bool" where
  "startsWith s p \<longleftrightarrow> take (length p) s = p"

definition substring :: "string \<Rightarrow> nat \<Rightarrow> string" where
  "substring s n = drop n s"

text \<open>\<^verbatim>\<open>el.focus()\<close> makes the element the active one; \<^verbatim>\<open>ref?.focus()\<close> skips a null reference.\<close>

definition focus :: "element \<Rightarrow> nav \<Rightarrow> nav" where
  "focus el s = s\<lparr>activeElement := Some el\<rparr>"

definition focusOpt :: "element option \<Rightarrow> nav \<Rightarrow> nav" where
  "focusOpt r s = (case r of None \<Rightarrow> s | Some el \<Rightarrow> focus el s)"

definition addEventListener :: "listener \<Rightarrow> nav \<Rightarrow> nav" where
  "addEventListener l s = s\<lparr>keydownListeners := keydownListeners s @ [l]\<rparr>"

definition removeEventListener :: "listener \<Rightarrow> nav \<Rightarrow> nav" where
  "removeEventListener l s = s\<lparr>keydownListeners := remove1 l (keydownListeners s)\<rparr>"

definition setOverflow :: "string \<Rightarrow> nav \<Rightarrow> nav" where
  "setOverflow v s = s\<lparr>bodyOverflow := v, overflowWrites := overflowWrites s @ [v]\<rparr>"

text \<open>\<^verbatim>\<open>document.getElementById\<close>: null when no element has the id (none has the empty id).\<close>

definition getElementById :: "string \<Rightarrow> nav \<Rightarrow> element option" where
  "getElementById i s = (if i = [] then None else map_of (elementsById s) i)"

definition scrollIntoView :: "element \<Rightarrow> nav \<Rightarrow> nav" where
  "scrollIntoView el s = s\<lparr>scrolledIntoView := scrolledIntoView s @ [el]\<rparr>"

definition setIsMobileMenuOpen :: "update \<Rightarrow> nav \<Rightarrow> nav" where
  "setIsMobileMenuOpen u s = s\<lparr>pending := pending s @ [u]\<rparr>"

definition registerCleanup :: "cleanup \<Rightarrow> nav \<Rightarrow> nav" where
  "registerCleanup c s = s\<lparr>cleanups := cleanups s @ [c]\<rparr>"

section \<open>Navigation.tsx: the three effects\<close>

text \<open>The Escape effect registers its listener in every render, open or closed.\<close>

definition escapeEffect :: "nav \<Rightarrow> nav" where
  "escapeEffect s =
     (let handleEscape = HandleEscape (isMobileMenuOpen s)
      in registerCleanup (RemoveListener handleEscape) (addEventListener handleEscape s))"

text \<open>The focus-trap effect returns early when the menu is closed or the panel is absent.\<close>

definition focusTrapEffect :: "nav \<Rightarrow> nav" where
  "focusTrapEffect s =
     (if \<not> isMobileMenuOpen s then s
      else case mobileMenuRef s of
        None \<Rightarrow> s
      | Some focusableElements \<Rightarrow>
          (let firstElement = index focusableElements 0;
               lastElement = index focusableElements (int (length focusableElements) - 1);
               s1 = focusOpt firstElement s;
               handleTabKey = HandleTabKey firstElement lastElement
           in registerCleanup (RemoveListener handleTabKey) (addEventListener handleTabKey s1)))"

definition scrollLockEffect :: "nav \<Rightarrow> nav" where
  "scrollLockEffect s =
     registerCleanup ResetOverflow
       (if isMobileMenuOpen s then setOverflow ''hidden'' s else setOverflow [] s)"

fun runCleanup :: "cleanup \<Rightarrow> nav \<Rightarrow> nav" where
  "runCleanup (RemoveListener l) s = removeEventListener l s"
| "runCleanup ResetOverflow s = setOverflow [] s"

definition runEffects :: "nav \<Rightarrow> nav" where
  "runEffects s = scrollLockEffect (focusTrapEffect (escapeEffect s))"

text \<open>
  A commit after \<^verbatim>\<open>isMobileMenuOpen\<close> changed: all three effects depend on it, so React
  runs their cleanups and then the effects again.
\<close>

definition commit :: "nav \<Rightarrow> nav" where
  "commit s = runEffects (fold runCleanup (cleanups s) (s\<lparr>cleanups := []\<rparr>))"

fun applyUpdate :: "update \<Rightarrow> bool \<Rightarrow> bool" where
  "applyUpdate (SetTo v) prev = v"
| "applyUpdate Negate prev = (\<not> prev)"

text \<open>
  After a handler has returned React applies the queued updates; when the resulting value
  equals the current one it bails out: no render, no effect.
\<close>

definition flush :: "nav \<Rightarrow> nav" where
  "flush s =
     (let v = fold applyUpdate (pending s) (isMobileMenuOpen s);
          s' = s\<lparr>pending := []\<rparr>
      in if v = isMobileMenuOpen s then s' else commit (s'\<lparr>isMobileMenuOpen := v\<rparr>))"

text \<open>
  The first render: \<^verbatim>\<open>useState(false)\<close>, then the effects. The arguments are the
  surrounding document: the two references, the elements with an id, the focused element.
\<close>

definition mount ::
  "element option \<Rightarrow> element list option \<Rightarrow> (string \<times> element) list \<Rightarrow> element option \<Rightarrow> nav" where
  "mount hamburger panel ids active =
     runEffects \<lparr>isMobileMenuOpen = False, pending = [], cleanups = [],
       hamburgerButtonRef = hamburger, mobileMenuRef = panel, activeElement = active,
       bodyOverflow = [], overflowWrites = [], keydownListeners = [],
       elementsById = ids, scrolledIntoView = []\<rparr>"

section \<open>Navigation.tsx: the handlers\<close>

definition handleLinkClick :: "dom_event \<Rightarrow> string \<Rightarrow> nav \<Rightarrow> dom_event \<times> nav" where
  "handleLinkClick e href s =
     (if startsWith href ''#'' then
        (let e' = e\<lparr>defaultPrevented := True\<rparr>;
             targetId = substring href 1;
             s1 = (case getElementById targetId s of
                     Some targetElement \<Rightarrow> scrollIntoView targetElement s
                   | None \<Rightarrow> s)
         in (e', setIsMobileMenuOpen (SetTo False) s1))
      else (e, s))"

definition toggleMobileMenu :: "nav \<Rightarrow> nav" where
  "toggleMobileMenu s = setIsMobileMenuOpen Negate s"

definition closeMobileMenu :: "nav \<Rightarrow> nav" where
  "closeMobileMenu s = setIsMobileMenuOpen (SetTo False) s"

text \<open>\<open>isOpen\<close> is the value the closure captured.\<close>

definition handleEscape :: "bool \<Rightarrow> keyboard_event \<Rightarrow> nav \<Rightarrow> keyboard_event \<times> nav" where
  "handleEscape isOpen e s =
     (if key e = ''Escape'' \<and> isOpen
      then (e, focusOpt (hamburgerButtonRef s) (closeMobileMenu s))
      else (e, s))"

text \<open>
  \<^verbatim>\<open>document.activeElement === firstElement\<close> is false when \<^verbatim>\<open>firstElement\<close> is
  \<^verbatim>\<open>undefined\<close>, whatever has the focus; likewise for \<^verbatim>\<open>lastElement\<close>.
\<close>

definition handleTabKey ::
  "element option \<Rightarrow> element option \<Rightarrow> keyboard_event \<Rightarrow> nav \<Rightarrow> keyboard_event \<times> nav" where
  "handleTabKey firstElement lastElement e s =
     (if key e \<noteq> ''Tab'' then (e, s)
      else if shiftKey e then
        (if activeElement s = firstElement \<and> firstElement \<noteq> None
         then (e\<lparr>defaultPrevented := True\<rparr>, focusOpt lastElement s)
         else (e, s))
      else
        (if activeElement s = lastElement \<and> lastElement \<noteq> None
         then (e\<lparr>defaultPrevented := True\<rparr>, focusOpt firstElement s)
         else (e, s)))"

fun runListener :: "listener \<Rightarrow> keyboard_event \<times> nav \<Rightarrow> keyboard_event \<times> nav" where
  "runListener (HandleEscape isOpen) (e, s) = handleEscape isOpen e s"
| "runListener (HandleTabKey firstElement lastElement) (e, s) =
     handleTabKey firstElement lastElement e s"

text \<open>
  A \<^verbatim>\<open>keydown\<close> on the document: every listener attached at that moment runs, in
  registration order, then the queued state updates are applied.
\<close>

definition dispatchKeydown :: "keyboard_event \<Rightarrow> nav \<Rightarrow> keyboard_event \<times> nav" where
  "dispatchKeydown e s =
     (case fold runListener (keydownListeners s) (e, s) of (e', s') \<Rightarrow> (e', flush s'))"

section \<open>What the user and the browser can do to the mounted component\<close>

text \<open>
  The hamburger button calls \<^verbatim>\<open>toggleMobileMenu\<close>; the backdrop and the panel's close
  button call \<^verbatim>\<open>closeMobileMenu\<close>; every link calls \<^verbatim>\<open>handleLinkClick\<close> with its
  \<^verbatim>\<open>href\<close>; a key press reaches the document's listeners; \<open>MoveFocus\<close> is the
  browser moving the focus itself (pointer, native Tab order).
\<close>

datatype user_event =
    ClickHamburger
  | ClickBackdrop
  | ClickCloseButton
  | ClickLink string
  | Keydown string bool
  | MoveFocus "element option"

definition freshEvent :: dom_event where
  "freshEvent = \<lparr>defaultPrevented = False, propagationStopped = False\<rparr>"

definition keydown :: "string \<Rightarrow> bool \<Rightarrow> keyboard_event" where
  "keydown k shift =
     \<lparr>defaultPrevented = False, propagationStopped = False, key = k, shiftKey = shift\<rparr>"

fun step :: "user_event \<Rightarrow> nav \<Rightarrow> nav" where
  "step ClickHamburger s = flush (toggleMobileMenu s)"
| "step ClickBackdrop s = flush (closeMobileMenu s)"
| "step ClickCloseButton s = flush (closeMobileMenu s)"
| "step (ClickLink href) s = flush (snd (handleLinkClick freshEvent href s))"
| "step (Keydown k shift) s = snd (dispatchKeydown (keydown k shift) s)"
| "step (MoveFocus a) s = s\<lparr>activeElement := a\<rparr>"

definition run :: "user_event list \<Rightarrow> nav \<Rightarrow> nav" where
  "run evs s = fold step evs s"

section \<open>Button.tsx: handleClick\<close>

text \<open>
  \<^verbatim>\<open>window.dataLayer\<close> is declared as an optional array of analytics events. It is
  taken as either a plain array, whose \<^verbatim>\<open>push\<close> appends, or an array whose
  \<^verbatim>\<open>push\<close> throws (a tag manager replaces \<^verbatim>\<open>push\<close> by its own function, which the
  declared type does not exclude).
\<close>

datatype exn = PushFailed

record analytics_event =
  event :: string
  category :: string
  action :: string
  label :: string
  location :: string
  buttonText :: string

datatype data_layer = ArrayLayer "analytics_event list" | ThrowingLayer

fun push :: "analytics_event \<Rightarrow> data_layer \<Rightarrow> exn + data_layer" where
  "push ev (ArrayLayer evs) = Inr (ArrayLayer (evs @ [ev]))"
| "push ev ThrowingLayer = Inl PushFailed"

record window =
  dataLayer :: "data_layer option"

datatype children = Text string | Nodes

text \<open>
  The props that \<^verbatim>\<open>handleClick\<close> reads. \<open>'w\<close> is whatever the \<^verbatim>\<open>onClick\<close> callback
  can change. An optional prop that was not passed is \<open>None\<close>.
\<close>

record 'w button_props =
  disabled :: bool
  onClick :: "('w \<Rightarrow> 'w) option"
  href :: "string option"
  analyticsId :: "string option"
  analyticsLocation :: "string option"
  children :: children

text \<open>JavaScript truthiness of an optional string: undefined and the empty string are falsy.\<close>

definition truthy :: "string option \<Rightarrow> bool" where
  "truthy x = (case x of None \<Rightarrow> False | Some v \<Rightarrow> v \<noteq> [])"

definition orElse :: "string option \<Rightarrow> string \<Rightarrow> string" where
  "orElse x d = (case x of None \<Rightarrow> d | Some v \<Rightarrow> if v \<noteq> [] then v else d)"

text \<open>
  The analytics statement of \<^verbatim>\<open>handleClick\<close>: the push happens when \<^verbatim>\<open>analyticsId\<close>
  is truthy, \<^verbatim>\<open>window\<close> is defined and \<^verbatim>\<open>window.dataLayer\<close> is truthy. \<open>win\<close> is
  \<open>None\<close> where \<^verbatim>\<open>typeof window\<close> is \<^verbatim>\<open>'undefined'\<close>. There is no
  \<^verbatim>\<open>try\<close> around the push: what it throws leaves the function (\<open>Inl\<close>).
\<close>

definition trackClick :: "'w button_props \<Rightarrow> window option \<Rightarrow> exn + window option" where
  "trackClick p win =
     (case analyticsId p of
        None \<Rightarrow> Inr win
      | Some aid \<Rightarrow>
          if aid = [] then Inr win
          else
            (case win of
               None \<Rightarrow> Inr win
             | Some wd \<Rightarrow>
                 (case dataLayer wd of
                    None \<Rightarrow> Inr win
                  | Some dl \<Rightarrow>
                      (case push \<lparr>event = ''cta_click'', category = ''engagement'',
                                   action = ''click'', label = aid,
                                   location = orElse (analyticsLocation p) ''unknown'',
                                   buttonText = (case children p of
                                                   Text t \<Rightarrow> t
                                                 | Nodes \<Rightarrow> aid)\<rparr> dl of
                         Inl x \<Rightarrow> Inl x
                       | Inr dl' \<Rightarrow> Inr (Some (wd\<lparr>dataLayer := Some dl'\<rparr>))))))"

definition handleClick ::
  "'w button_props \<Rightarrow> window option \<Rightarrow> 'w \<Rightarrow> exn + (window option \<times> 'w)" where
  "handleClick p win w =
     (if disabled p then Inr (win, w)
      else
        (case trackClick p win of
           Inl x \<Rightarrow> Inl x
         | Inr win' \<Rightarrow>
             (case onClick p of
                Some f \<Rightarrow> if \<not> truthy (href p) then Inr (win', f w) else Inr (win', w)
              | None \<Rightarrow> Inr (win', w))))"

text \<open>
  The props of the call-to-action button inside the mobile panel. Its \<^verbatim>\<open>onClick\<close> runs
  the optional \<^verbatim>\<open>ctaButton.onClick\<close> and then \<^verbatim>\<open>closeMobileMenu\<close>.
\<close>

definition mobileCtaProps ::
  "string \<Rightarrow> string \<Rightarrow> (nav \<Rightarrow> nav) option \<Rightarrow> nav button_props" where
  "mobileCtaProps ctaLabel ctaHref ctaOnClick =
     \<lparr>disabled = False,
      onClick = Some (\<lambda>s. closeMobileMenu (case ctaOnClick of None \<Rightarrow> s | Some f \<Rightarrow> f s)),
      href = Some ctaHref,
      analyticsId = Some ''mobile-nav-cta'',
      analyticsLocation = Some ''mobile-navigation'',
      children = Text ctaLabel\<rparr>"

section \<open>The shape of a state between two events\<close>

text \<open>
  The tab listener that the focus-trap effect leaves attached for a given
  \<^verbatim>\<open>isMobileMenuOpen\<close> and panel reference.
\<close>

definition trapListeners :: "bool \<Rightarrow> element list option \<Rightarrow> listener list" where
  "trapListeners isOpen panel =
     (if isOpen then
        (case panel of
           None \<Rightarrow> []
         | Some fs \<Rightarrow> [HandleTabKey (index fs 0) (index fs (int (length fs) - 1))])
      else [])"

text \<open>
  \<open>wired\<close>: the listeners, the cleanups and the body style are those of the last commit.
  \<open>settled\<close>: moreover no state update is waiting.
\<close>

definition wired :: "nav \<Rightarrow> bool" where
  "wired s \<longleftrightarrow>
     keydownListeners s =
       HandleEscape (isMobileMenuOpen s) # trapListeners (isMobileMenuOpen s) (mobileMenuRef s) \<and>
     cleanups s = map RemoveListener (keydownListeners s) @ [ResetOverflow] \<and>
     bodyOverflow s = (if isMobileMenuOpen s then ''hidden'' else [])"

definition settled :: "nav \<Rightarrow> bool" where
  "settled s \<longleftrightarrow> wired s \<and> pending s = []"

text \<open>Assignments of \<^verbatim>\<open>'hidden'\<close> and of \<^verbatim>\<open>''\<close> to the body's overflow so far.\<close>

definition lockCalls :: "nav \<Rightarrow> nat" where
  "lockCalls s = length (filter (\<lambda>v. v = ''hidden'') (overflowWrites s))"

definition unlockCalls :: "nav \<Rightarrow> nat" where
  "unlockCalls s = length (filter (\<lambda>v. v = []) (overflowWrites s))"

section \<open>Every reachable state is settled\<close>

lemmas prim_defs = focus_def focusOpt_def addEventListener_def removeEventListener_def
  setOverflow_def scrollIntoView_def setIsMobileMenuOpen_def registerCleanup_def

lemmas effect_defs = runEffects_def escapeEffect_def focusTrapEffect_def scrollLockEffect_def

lemma fold_remove_listeners:
  "keydownListeners (fold runCleanup (map RemoveListener ls) s) = fold remove1 ls (keydownListeners s)"
  by (induction ls arbitrary: s) (simp_all add: removeEventListener_def)

lemma fold_remove1_self: "fold remove1 ls (ls @ r) = r"
  by (induction ls) simp_all

lemma fold_cleanup_frame:
  "isMobileMenuOpen (fold runCleanup cs s) = isMobileMenuOpen s \<and>
   mobileMenuRef (fold runCleanup cs s) = mobileMenuRef s \<and>
   hamburgerButtonRef (fold runCleanup cs s) = hamburgerButtonRef s \<and>
   pending (fold runCleanup cs s) = pending s \<and>
   cleanups (fold runCleanup cs s) = cleanups s \<and>
   activeElement (fold runCleanup cs s) = activeElement s \<and>
   elementsById (fold runCleanup cs s) = elementsById s \<and>
   scrolledIntoView (fold runCleanup cs s) = scrolledIntoView s"
proof (induction cs arbitrary: s)
  case Nil
  show ?case by simp
next
  case (Cons c cs)
  show ?case by (cases c) (simp_all add: Cons.IH prim_defs)
qed

lemma runEffects_wired:
  "keydownListeners s = [] \<Longrightarrow> cleanups s = [] \<Longrightarrow> wired (runEffects s)"
  by (simp add: wired_def effect_defs prim_defs trapListeners_def Let_def split: option.splits)

lemma runEffects_frame:
  "isMobileMenuOpen (runEffects s) = isMobileMenuOpen s \<and>
   mobileMenuRef (runEffects s) = mobileMenuRef s \<and>
   hamburgerButtonRef (runEffects s) = hamburgerButtonRef s \<and>
   pending (runEffects s) = pending s \<and>
   elementsById (runEffects s) = elementsById s \<and>
   scrolledIntoView (runEffects s) = scrolledIntoView s"
  by (simp add: effect_defs prim_defs Let_def split: option.splits)

lemma cleanups_clear_listeners:
  assumes "cleanups s = map RemoveListener (keydownListeners s) @ [ResetOverflow]"
  shows "keydownListeners (fold runCleanup (cleanups s) (s\<lparr>cleanups := []\<rparr>)) = []"
proof -
  have "keydownListeners (fold runCleanup (cleanups s) (s\<lparr>cleanups := []\<rparr>))
        = keydownListeners (fold runCleanup (map RemoveListener (keydownListeners s)) (s\<lparr>cleanups := []\<rparr>))"
    by (simp add: assms setOverflow_def)
  also have "\<dots> = fold remove1 (keydownListeners s) (keydownListeners s @ [])"
    by (simp add: fold_remove_listeners)
  also have "\<dots> = []" by (rule fold_remove1_self)
  finally show ?thesis .
qed

lemma commit_wired:
  assumes "cleanups s = map RemoveListener (keydownListeners s) @ [ResetOverflow]"
  shows "wired (commit s)"
  unfolding commit_def
  by (rule runEffects_wired) (simp_all add: cleanups_clear_listeners [OF assms] fold_cleanup_frame)

lemma commit_frame:
  "isMobileMenuOpen (commit s) = isMobileMenuOpen s \<and>
   mobileMenuRef (commit s) = mobileMenuRef s \<and>
   hamburgerButtonRef (commit s) = hamburgerButtonRef s \<and>
   pending (commit s) = pending s \<and>
   elementsById (commit s) = elementsById s \<and>
   scrolledIntoView (commit s) = scrolledIntoView s"
  by (simp add: commit_def runEffects_frame fold_cleanup_frame)

lemma flush_settled:
  assumes "wired s"
  shows "settled (flush s)"
proof (cases "fold applyUpdate (pending s) (isMobileMenuOpen s) = isMobileMenuOpen s")
  case True
  then have "flush s = s\<lparr>pending := []\<rparr>" by (simp add: flush_def)
  with assms show ?thesis by (simp add: settled_def wired_def)
next
  case False
  define t where "t = s\<lparr>pending := [], isMobileMenuOpen := fold applyUpdate (pending s) (isMobileMenuOpen s)\<rparr>"
  from False have fl: "flush s = commit t" by (simp add: flush_def t_def Let_def)
  from assms have "cleanups t = map RemoveListener (keydownListeners t) @ [ResetOverflow]"
    by (simp add: wired_def t_def)
  then have "wired (commit t)" by (rule commit_wired)
  moreover have "pending (commit t) = []" by (simp add: commit_frame t_def)
  ultimately show ?thesis by (simp add: fl settled_def)
qed

lemma flush_isOpen:
  "isMobileMenuOpen (flush s) = fold applyUpdate (pending s) (isMobileMenuOpen s)"
  by (simp add: flush_def Let_def commit_frame)

lemma flush_frame:
  "mobileMenuRef (flush s) = mobileMenuRef s \<and>
   hamburgerButtonRef (flush s) = hamburgerButtonRef s \<and>
   elementsById (flush s) = elementsById s \<and>
   scrolledIntoView (flush s) = scrolledIntoView s"
  by (simp add: flush_def Let_def commit_frame)

lemma flush_idle: "pending s = [] \<Longrightarrow> flush s = s"
  by (simp add: flush_def)

lemma handleLinkClick_wired: "wired s \<Longrightarrow> wired (snd (handleLinkClick e dst s))"
  by (simp add: handleLinkClick_def wired_def prim_defs Let_def split: option.splits)

lemma runListener_wired: "wired (snd es) \<Longrightarrow> wired (snd (runListener l es))"
  by (cases l; cases es)
     (simp_all add: handleEscape_def handleTabKey_def closeMobileMenu_def wired_def prim_defs
        split: option.splits)

lemma fold_runListener_wired: "wired (snd es) \<Longrightarrow> wired (snd (fold runListener ls es))"
  by (induction ls arbitrary: es) (simp_all add: runListener_wired)

lemma dispatchKeydown_snd:
  "snd (dispatchKeydown e s) = flush (snd (fold runListener (keydownListeners s) (e, s)))"
  by (simp add: dispatchKeydown_def split: prod.splits)

lemma dispatchKeydown_fst:
  "fst (dispatchKeydown e s) = fst (fold runListener (keydownListeners s) (e, s))"
  by (simp add: dispatchKeydown_def split: prod.splits)

lemma toggle_close_wired:
  "wired s \<Longrightarrow> wired (toggleMobileMenu s)" "wired s \<Longrightarrow> wired (closeMobileMenu s)"
  by (simp_all add: toggleMobileMenu_def closeMobileMenu_def wired_def prim_defs)

lemma step_settled:
  assumes "settled s"
  shows "settled (step ev s)"
proof -
  from assms have w: "wired s" by (simp add: settled_def)
  show ?thesis
  proof (cases ev)
    case ClickHamburger
    then show ?thesis by (simp add: flush_settled toggle_close_wired w)
  next
    case ClickBackdrop
    then show ?thesis by (simp add: flush_settled toggle_close_wired w)
  next
    case ClickCloseButton
    then show ?thesis by (simp add: flush_settled toggle_close_wired w)
  next
    case (ClickLink dst)
    then show ?thesis by (simp add: flush_settled handleLinkClick_wired w)
  next
    case (Keydown k shift)
    have "wired (snd (fold runListener (keydownListeners s) (keydown k shift, s)))"
      by (simp add: fold_runListener_wired w)
    then show ?thesis
      by (simp add: Keydown dispatchKeydown_snd flush_settled)
  next
    case (MoveFocus a)
    with assms show ?thesis by (simp add: settled_def wired_def)
  qed
qed

lemma runListener_frame:
  "mobileMenuRef (snd (runListener l es)) = mobileMenuRef (snd es) \<and>
   hamburgerButtonRef (snd (runListener l es)) = hamburgerButtonRef (snd es) \<and>
   elementsById (snd (runListener l es)) = elementsById (snd es)"
  by (cases l; cases es)
     (simp_all add: handleEscape_def handleTabKey_def closeMobileMenu_def prim_defs
        split: option.splits)

lemma fold_runListener_frame:
  "mobileMenuRef (snd (fold runListener ls es)) = mobileMenuRef (snd es) \<and>
   hamburgerButtonRef (snd (fold runListener ls es)) = hamburgerButtonRef (snd es) \<and>
   elementsById (snd (fold runListener ls es)) = elementsById (snd es)"
  by (induction ls arbitrary: es) (simp_all add: runListener_frame)

lemma step_frame:
  "mobileMenuRef (step ev s) = mobileMenuRef s \<and>
   hamburgerButtonRef (step ev s) = hamburgerButtonRef s \<and>
   elementsById (step ev s) = elementsById s"
  by (cases ev)
     (simp_all add: flush_frame dispatchKeydown_snd fold_runListener_frame toggleMobileMenu_def
        closeMobileMenu_def handleLinkClick_def prim_defs Let_def split: option.splits)

lemma run_frame:
  "mobileMenuRef (run evs s) = mobileMenuRef s \<and>
   hamburgerButtonRef (run evs s) = hamburgerButtonRef s \<and>
   elementsById (run evs s) = elementsById s"
  unfolding run_def by (induction evs arbitrary: s) (simp_all add: step_frame)

lemma mount_frame:
  "mobileMenuRef (mount h p ids a) = p \<and> hamburgerButtonRef (mount h p ids a) = h \<and>
   elementsById (mount h p ids a) = ids \<and> \<not> isMobileMenuOpen (mount h p ids a)"
  by (simp add: mount_def runEffects_frame)

lemma mount_settled: "settled (mount h p ids a)"
  by (simp add: mount_def settled_def runEffects_wired runEffects_frame)

lemma run_settled: "settled s \<Longrightarrow> settled (run evs s)"
  unfolding run_def by (induction evs arbitrary: s) (simp_all add: step_settled)

lemma reachable_settled: "settled (run evs (mount h p ids a))"
  by (simp add: run_settled mount_settled)


section \<open>What the two keydown listeners do in a settled open state\<close>

lemma commit_closed_focus:
  "\<not> isMobileMenuOpen s \<Longrightarrow> activeElement (commit s) = activeElement s"
  by (simp add: commit_def effect_defs prim_defs Let_def fold_cleanup_frame)

lemma index_first_last:
  "fs \<noteq> [] \<Longrightarrow> index fs 0 = Some (hd fs) \<and> index fs (int (length fs) - 1) = Some (last fs)"
  by (cases fs) (auto simp: index_def hd_conv_nth last_conv_nth nat_diff_distrib)

lemma escape_listeners:
  assumes "wired s" "isMobileMenuOpen s" "key e = ''Escape''"
  shows "fold runListener (keydownListeners s) (e, s)
         = (e, focusOpt (hamburgerButtonRef s) (closeMobileMenu s))"
  using assms
  by (simp add: wired_def trapListeners_def handleEscape_def handleTabKey_def
      split: option.splits)

lemma escape_dispatch:
  assumes "settled s" "isMobileMenuOpen s" "key e = ''Escape''"
  shows "fst (dispatchKeydown e s) = e"
    and "\<not> isMobileMenuOpen (snd (dispatchKeydown e s))"
    and "activeElement (snd (dispatchKeydown e s)) =
           (case hamburgerButtonRef s of Some t \<Rightarrow> Some t | None \<Rightarrow> activeElement s)"
proof -
  from assms have w: "wired s" and p: "pending s = []" by (simp_all add: settled_def)
  note fl = escape_listeners [OF w assms(2,3)]
  define t where "t = focusOpt (hamburgerButtonRef s) (closeMobileMenu s)"
  have tp: "pending t = [SetTo False]" "isMobileMenuOpen t" 
    "activeElement t = (case hamburgerButtonRef s of Some t \<Rightarrow> Some t | None \<Rightarrow> activeElement s)"
    using p assms(2) by (simp_all add: t_def closeMobileMenu_def prim_defs split: option.splits)
  show "fst (dispatchKeydown e s) = e" by (simp add: dispatchKeydown_fst fl)
  have sn: "snd (dispatchKeydown e s) = flush t" by (simp add: dispatchKeydown_snd fl t_def)
  show "\<not> isMobileMenuOpen (snd (dispatchKeydown e s))" by (simp add: sn flush_isOpen tp)
  have "flush t = commit (t\<lparr>pending := [], isMobileMenuOpen := False\<rparr>)"
    by (simp add: flush_def tp Let_def)
  then show "activeElement (snd (dispatchKeydown e s)) =
           (case hamburgerButtonRef s of Some t \<Rightarrow> Some t | None \<Rightarrow> activeElement s)"
    by (simp add: sn commit_closed_focus tp)
qed

lemma tab_listeners:
  assumes "wired s" "isMobileMenuOpen s" "mobileMenuRef s = Some fs" "fs \<noteq> []" "key e = ''Tab''"
  shows "fold runListener (keydownListeners s) (e, s)
         = handleTabKey (Some (hd fs)) (Some (last fs)) e s"
  using assms index_first_last [of fs]
  by (simp add: wired_def trapListeners_def handleEscape_def)


lemma close_flush:
  assumes "settled s"
  shows "\<not> isMobileMenuOpen (flush (closeMobileMenu s))"
  using assms by (simp add: flush_isOpen closeMobileMenu_def prim_defs settled_def)

lemma anchor_click_isOpen:
  "startsWith dst ''#'' \<Longrightarrow> \<not> isMobileMenuOpen (flush (snd (handleLinkClick e dst s)))"
  by (simp add: flush_isOpen handleLinkClick_def prim_defs Let_def split: option.splits)

lemma fold_remove_writes:
  "overflowWrites (fold runCleanup (map RemoveListener ls) s) = overflowWrites s"
  by (induction ls arbitrary: s) (simp_all add: removeEventListener_def)

lemma commit_writes:
  assumes "cleanups s = map RemoveListener (keydownListeners s) @ [ResetOverflow]"
  shows "overflowWrites (commit s)
         = overflowWrites s @ [[], if isMobileMenuOpen s then ''hidden'' else []]"
proof -
  have "overflowWrites (fold runCleanup (cleanups s) (s\<lparr>cleanups := []\<rparr>)) = overflowWrites s @ [[]]"
    by (simp add: assms fold_remove_writes setOverflow_def)
  moreover have "\<And>t. overflowWrites (runEffects t)
      = overflowWrites t @ [if isMobileMenuOpen t then ''hidden'' else []]"
    by (simp add: effect_defs prim_defs Let_def split: option.splits)
  ultimately show ?thesis by (simp add: commit_def fold_cleanup_frame)
qed

lemma close_when_closed:
  assumes "settled s" "\<not> isMobileMenuOpen s"
  shows "flush (closeMobileMenu s) = s"
  using assms by (simp add: flush_def closeMobileMenu_def setIsMobileMenuOpen_def settled_def)

lemma toggle_from_closed:
  assumes "settled s" "\<not> isMobileMenuOpen s"
  shows "overflowWrites (flush (toggleMobileMenu s)) = overflowWrites s @ [[], ''hidden'']"
proof -
  from assms have p: "pending s = []" and c: "cleanups s = map RemoveListener (keydownListeners s) @ [ResetOverflow]"
    by (simp_all add: settled_def wired_def)
  define t where "t = s\<lparr>pending := [], isMobileMenuOpen := True\<rparr>"
  have "flush (toggleMobileMenu s) = commit t"
    using p assms(2) by (simp add: flush_def toggleMobileMenu_def setIsMobileMenuOpen_def t_def)
  moreover have "cleanups t = map RemoveListener (keydownListeners t) @ [ResetOverflow]"
    using c by (simp add: t_def)
  ultimately show ?thesis by (simp add: commit_writes t_def)
qed

lemma closed_dispatch:
  assumes "settled s" and "\<not> isMobileMenuOpen s"
  shows "dispatchKeydown e s = (e, s)"
proof -
  from assms have ls: "keydownListeners s = [HandleEscape False]" and p: "pending s = []"
    by (simp_all add: settled_def wired_def trapListeners_def)
  have "fold runListener (keydownListeners s) (e, s) = (e, s)"
    by (simp add: ls handleEscape_def)
  then show ?thesis by (simp add: dispatchKeydown_def flush_idle [OF p])
qed

section \<open>Button.tsx: a Button with an href\<close>

lemma trackClick_onClick: "trackClick (p\<lparr>onClick := f\<rparr>) win = trackClick p win"
  by (simp add: trackClick_def cong: option.case_cong sum.case_cong if_cong children.case_cong)

lemma handleClick_href:
  assumes "truthy (href p)"
  shows "handleClick p win w = handleClick (p\<lparr>onClick := None\<rparr>) win w"
proof (cases "onClick p")
  case None
  then have "p\<lparr>onClick := None\<rparr> = p" by simp
  then show ?thesis by simp
next
  case (Some f)
  show ?thesis
  proof (cases "trackClick p win")
    case (Inl x)
    then show ?thesis by (simp add: handleClick_def trackClick_onClick)
  next
    case (Inr win')
    then show ?thesis using assms Some by (simp add: handleClick_def trackClick_onClick)
  qed
qed

lemma handleClick_href_state:
  assumes "truthy (href p)" and "handleClick p win w = Inr (win', w')"
  shows "w' = w"
proof (cases "disabled p")
  case True
  with assms(2) show ?thesis by (simp add: handleClick_def)
next
  case False
  show ?thesis
  proof (cases "trackClick p win")
    case (Inl x)
    with assms(2) False show ?thesis by (simp add: handleClick_def)
  next
    case (Inr win2)
    with assms False show ?thesis
      by (cases "onClick p") (simp_all add: handleClick_def)
  qed
qed

section \<open>Claims\<close>

text \<open>
  C4. While the overlay is open and the focusable set \<open>fs\<close> of the panel is not empty:
  Tab without Shift on the last element moves the focus to the first one and prevents the
  default action; Shift+Tab on the first element moves the focus to the last one and
  prevents the default action; every other Tab press leaves both the event and the state as
  they were.
\<close>

theorem tab_trap:
  assumes "s = run evs (mount h (Some fs) ids a)" and "isMobileMenuOpen s" and "fs \<noteq> []"
    and "key e = ''Tab''"
  shows "dispatchKeydown e s =
     (if \<not> shiftKey e \<and> activeElement s = Some (last fs)
        then (e\<lparr>defaultPrevented := True\<rparr>, s\<lparr>activeElement := Some (hd fs)\<rparr>)
      else if shiftKey e \<and> activeElement s = Some (hd fs)
        then (e\<lparr>defaultPrevented := True\<rparr>, s\<lparr>activeElement := Some (last fs)\<rparr>)
      else (e, s))"
proof -
  have st: "settled s" by (simp add: assms(1) reachable_settled)
  then have w: "wired s" and p: "pending s = []" by (simp_all add: settled_def)
  have m: "mobileMenuRef s = Some fs" by (simp add: assms(1) run_frame mount_frame)
  note fl = tab_listeners [OF w assms(2) m assms(3,4)]
  have "pending (snd (handleTabKey (Some (hd fs)) (Some (last fs)) e s)) = []"
    using p by (simp add: handleTabKey_def prim_defs)
  then have "dispatchKeydown e s = handleTabKey (Some (hd fs)) (Some (last fs)) e s"
    by (simp add: prod_eq_iff dispatchKeydown_fst dispatchKeydown_snd fl flush_idle)
  then show ?thesis using assms(4) by (simp add: handleTabKey_def prim_defs)
qed

theorem tab_trap_witness:
  "dispatchKeydown (keydown ''Tab'' False)
     (run [ClickHamburger, MoveFocus (Some 3)] (mount (Some 0) (Some [1, 2, 3]) [] None))
   = ((keydown ''Tab'' False)\<lparr>defaultPrevented := True\<rparr>,
      (run [ClickHamburger, MoveFocus (Some 3)] (mount (Some 0) (Some [1, 2, 3]) [] None))
        \<lparr>activeElement := Some 1\<rparr>)"
proof -
  have o: "isMobileMenuOpen (run [ClickHamburger, MoveFocus (Some 3)] (mount (Some 0) (Some [1, 2, 3]) [] None))"
    by code_simp
  have a: "activeElement (run [ClickHamburger, MoveFocus (Some 3)] (mount (Some 0) (Some [1, 2, 3]) [] None)) = Some 3"
    by code_simp
  have k: "key (keydown ''Tab'' False) = ''Tab''" "\<not> shiftKey (keydown ''Tab'' False)" by (simp_all add: keydown_def)
  show ?thesis
    using tab_trap [OF refl o _ k(1)] a k(2) by simp
qed

text \<open>
  C1 (as the code has it). In every reachable open state: an Escape key press closes the
  overlay and, when the hamburger reference is set, leaves the focus on the hamburger
  button; a click on the backdrop closes the overlay; a click on a link whose destination
  starts with \<^verbatim>\<open>#\<close> closes the overlay.
\<close>

theorem dismissal_closes:
  assumes "s = run evs (mount h p ids a)" and "isMobileMenuOpen s"
  shows "\<not> isMobileMenuOpen (step (Keydown ''Escape'' shift) s) \<and>
         (\<forall>t. h = Some t \<longrightarrow> activeElement (step (Keydown ''Escape'' shift) s) = Some t) \<and>
         \<not> isMobileMenuOpen (step ClickBackdrop s) \<and>
         (startsWith dst ''#'' \<longrightarrow> \<not> isMobileMenuOpen (step (ClickLink dst) s))"
proof -
  have st: "settled s" by (simp add: assms(1) reachable_settled)
  have hb: "hamburgerButtonRef s = h" by (simp add: assms(1) run_frame mount_frame)
  have k: "key (keydown ''Escape'' shift) = ''Escape''" by (simp add: keydown_def)
  note esc = escape_dispatch [OF st assms(2) k]
  show ?thesis
    using esc(2,3) hb by (simp add: close_flush [OF st] anchor_click_isOpen)
qed

text \<open>C1, the theorem at a state opened by one click on the hamburger button.\<close>

theorem dismissal_closes_witness:
  "\<not> isMobileMenuOpen (step (Keydown ''Escape'' False)
       (run [ClickHamburger] (mount (Some 0) (Some [1, 2, 3]) [(''pricing'', 7)] None))) \<and>
   activeElement (step (Keydown ''Escape'' False)
       (run [ClickHamburger] (mount (Some 0) (Some [1, 2, 3]) [(''pricing'', 7)] None))) = Some 0 \<and>
   \<not> isMobileMenuOpen (step ClickBackdrop
       (run [ClickHamburger] (mount (Some 0) (Some [1, 2, 3]) [(''pricing'', 7)] None))) \<and>
   \<not> isMobileMenuOpen (step (ClickLink ''#pricing'')
       (run [ClickHamburger] (mount (Some 0) (Some [1, 2, 3]) [(''pricing'', 7)] None)))"
proof -
  have o: "isMobileMenuOpen (run [ClickHamburger] (mount (Some 0) (Some [1, 2, 3]) [(''pricing'', 7)] None))"
    by code_simp
  have a: "startsWith ''#pricing'' ''#''" by (simp add: startsWith_def)
  show ?thesis
    using dismissal_closes [OF refl o, of False "''#pricing''"] a by simp
qed

text \<open>
  C1 as stated fails. In an open state whose hamburger button is element 0, a click on the
  backdrop and a click on an anchor link both leave the focus on element 1, the first
  element of the panel, and a click on the link \<^verbatim>\<open>/about\<close> leaves the overlay open.
\<close>

theorem dismissal_counterexample:
  "isMobileMenuOpen (run [ClickHamburger] (mount (Some 0) (Some [1, 2, 3]) [(''pricing'', 7)] None)) \<and>
   hamburgerButtonRef (run [ClickHamburger] (mount (Some 0) (Some [1, 2, 3]) [(''pricing'', 7)] None)) = Some 0 \<and>
   activeElement (step ClickBackdrop
       (run [ClickHamburger] (mount (Some 0) (Some [1, 2, 3]) [(''pricing'', 7)] None))) = Some 1 \<and>
   activeElement (step (ClickLink ''#pricing'')
       (run [ClickHamburger] (mount (Some 0) (Some [1, 2, 3]) [(''pricing'', 7)] None))) = Some 1 \<and>
   isMobileMenuOpen (step (ClickLink ''/about'')
       (run [ClickHamburger] (mount (Some 0) (Some [1, 2, 3]) [(''pricing'', 7)] None)))"
  by code_simp

text \<open>
  C2 (as the code has it). For a destination that does not start with \<^verbatim>\<open>#\<close>,
  \<^verbatim>\<open>handleLinkClick\<close> returns the event and the state as it received them: the default
  navigation is not prevented and no state update is queued, so the click leaves a
  reachable state as it was.
\<close>

theorem plain_link_click:
  assumes "\<not> startsWith dst ''#''"
  shows "handleLinkClick e dst s = (e, s) \<and>
         step (ClickLink dst) (run evs (mount h p ids a)) = run evs (mount h p ids a)"
proof -
  have "pending (run evs (mount h p ids a)) = []"
    using reachable_settled [of evs h p ids a] by (simp add: settled_def)
  with assms show ?thesis by (simp add: handleLinkClick_def flush_idle)
qed

text \<open>C2, the theorem at the destination \<^verbatim>\<open>/about\<close> in an open state.\<close>

theorem plain_link_click_witness:
  "handleLinkClick freshEvent ''/about'' (run [ClickHamburger] (mount (Some 0) (Some [1, 2, 3]) [] None))
     = (freshEvent, run [ClickHamburger] (mount (Some 0) (Some [1, 2, 3]) [] None)) \<and>
   step (ClickLink ''/about'') (run [ClickHamburger] (mount (Some 0) (Some [1, 2, 3]) [] None))
     = run [ClickHamburger] (mount (Some 0) (Some [1, 2, 3]) [] None)"
proof -
  have a: "\<not> startsWith ''/about'' ''#''" by (simp add: startsWith_def)
  show ?thesis by (rule plain_link_click [OF a])
qed

text \<open>C2 as stated fails: the overlay is still open after a click on the link \<^verbatim>\<open>/about\<close>.\<close>

theorem plain_link_counterexample:
  "\<not> startsWith ''/about'' ''#'' \<and>
   isMobileMenuOpen (run [ClickHamburger] (mount (Some 0) (Some [1, 2, 3]) [] None)) \<and>
   isMobileMenuOpen (step (ClickLink ''/about'')
      (run [ClickHamburger] (mount (Some 0) (Some [1, 2, 3]) [] None)))"
  by code_simp

text \<open>
  C3 (as the code has it). In every reachable state exactly one Escape listener is attached
  to the document, open or closed, and it holds the current value of
  \<^verbatim>\<open>isMobileMenuOpen\<close>; the Tab listener is attached exactly when the overlay is open and
  the panel reference is set. No listener of an earlier render stays attached. The Escape
  listener is guarded by \<^verbatim>\<open>isMobileMenuOpen\<close>: while the overlay is closed a keydown,
  whatever its key, leaves the event and the state as they were.
\<close>

theorem keydown_listeners:
  assumes "s = run evs (mount h p ids a)"
  shows "keydownListeners s =
     (if isMobileMenuOpen s then
        HandleEscape True #
          (case p of
             None \<Rightarrow> []
           | Some fs \<Rightarrow> [HandleTabKey (index fs 0) (index fs (int (length fs) - 1))])
      else [HandleEscape False]) \<and>
     (\<not> isMobileMenuOpen s \<longrightarrow> dispatchKeydown e s = (e, s))"
proof -
  have st: "settled s" by (simp add: assms reachable_settled)
  have m: "mobileMenuRef s = p" by (simp add: assms run_frame mount_frame)
  have "keydownListeners s =
     (if isMobileMenuOpen s then
        HandleEscape True #
          (case p of
             None \<Rightarrow> []
           | Some fs \<Rightarrow> [HandleTabKey (index fs 0) (index fs (int (length fs) - 1))])
      else [HandleEscape False])"
    using st m by (simp add: settled_def wired_def trapListeners_def)
  moreover have "\<not> isMobileMenuOpen s \<longrightarrow> dispatchKeydown e s = (e, s)"
    by (simp add: closed_dispatch [OF st])
  ultimately show ?thesis by blast
qed

text \<open>
  C3, the theorem after the overlay was opened, closed and opened again, and at the closed
  state in between, where an Escape key press changes nothing.
\<close>

theorem keydown_listeners_witness:
  "keydownListeners (run [ClickHamburger, ClickBackdrop, ClickHamburger]
       (mount (Some 0) (Some [1, 2, 3]) [] (Some 5)))
   = [HandleEscape True, HandleTabKey (Some 1) (Some 3)] \<and>
   keydownListeners (run [ClickHamburger, ClickBackdrop] (mount (Some 0) (Some [1, 2, 3]) [] (Some 5)))
   = [HandleEscape False] \<and>
   dispatchKeydown (keydown ''Escape'' False)
       (run [ClickHamburger, ClickBackdrop] (mount (Some 0) (Some [1, 2, 3]) [] (Some 5)))
   = (keydown ''Escape'' False,
      run [ClickHamburger, ClickBackdrop] (mount (Some 0) (Some [1, 2, 3]) [] (Some 5)))"
proof -
  have o: "isMobileMenuOpen (run [ClickHamburger, ClickBackdrop, ClickHamburger]
       (mount (Some 0) (Some [1, 2, 3]) [] (Some 5)))" by code_simp
  have c: "\<not> isMobileMenuOpen (run [ClickHamburger, ClickBackdrop]
       (mount (Some 0) (Some [1, 2, 3]) [] (Some 5)))" by code_simp
  show ?thesis
    using keydown_listeners [OF refl, of "[ClickHamburger, ClickBackdrop, ClickHamburger]"
        "Some 0" "Some [1, 2, 3]" "[]" "Some 5" "keydown ''Escape'' False"]
      keydown_listeners [OF refl, of "[ClickHamburger, ClickBackdrop]"
        "Some 0" "Some [1, 2, 3]" "[]" "Some 5" "keydown ''Escape'' False"]
      o c
    by (simp add: index_def)
qed

text \<open>
  C3 as stated fails: after the mount, and again after one open/close cycle, the overlay is
  closed and a keydown listener is attached to the document.
\<close>

theorem keydown_listeners_counterexample:
  "\<not> isMobileMenuOpen (mount (Some 0) (Some [1, 2, 3]) [] None) \<and>
   keydownListeners (mount (Some 0) (Some [1, 2, 3]) [] None) = [HandleEscape False] \<and>
   \<not> isMobileMenuOpen (run [ClickHamburger, ClickBackdrop] (mount (Some 0) (Some [1, 2, 3]) [] None)) \<and>
   keydownListeners (run [ClickHamburger, ClickBackdrop] (mount (Some 0) (Some [1, 2, 3]) [] None))
     = [HandleEscape False]"
  by code_simp

text \<open>
  C5 (as the code has it). In every reachable open state a keydown whose key is
  \<^verbatim>\<open>Escape\<close> closes the overlay and leaves the focus on the hamburger button when its
  reference is set (the focus stays where it was when the reference is null). The
  listeners hand the event object back as they received it: the propagation is not stopped
  and the default action is not prevented.
\<close>

theorem escape_keydown:
  assumes "s = run evs (mount h p ids a)" and "isMobileMenuOpen s" and "key e = ''Escape''"
  shows "\<not> isMobileMenuOpen (snd (dispatchKeydown e s)) \<and>
         activeElement (snd (dispatchKeydown e s)) =
           (case h of Some trigger \<Rightarrow> Some trigger | None \<Rightarrow> activeElement s) \<and>
         fst (dispatchKeydown e s) = e"
proof -
  have st: "settled s" by (simp add: assms(1) reachable_settled)
  have hb: "hamburgerButtonRef s = h" by (simp add: assms(1) run_frame mount_frame)
  show ?thesis using escape_dispatch [OF st assms(2,3)] hb by simp
qed

text \<open>C5, the theorem at a state opened by one click on the hamburger button.\<close>

theorem escape_keydown_witness:
  "\<not> isMobileMenuOpen (snd (dispatchKeydown (keydown ''Escape'' False)
       (run [ClickHamburger] (mount (Some 0) (Some [1, 2, 3]) [] None)))) \<and>
   activeElement (snd (dispatchKeydown (keydown ''Escape'' False)
       (run [ClickHamburger] (mount (Some 0) (Some [1, 2, 3]) [] None)))) = Some 0 \<and>
   fst (dispatchKeydown (keydown ''Escape'' False)
       (run [ClickHamburger] (mount (Some 0) (Some [1, 2, 3]) [] None))) = keydown ''Escape'' False"
proof -
  have o: "isMobileMenuOpen (run [ClickHamburger] (mount (Some 0) (Some [1, 2, 3]) [] None))"
    by code_simp
  have k: "key (keydown ''Escape'' False) = ''Escape''" by (simp add: keydown_def)
  show ?thesis using escape_keydown [OF refl o k] by simp
qed

text \<open>
  C5 as stated fails: after the Escape key press in an open state, the propagation of the
  event has not been stopped.
\<close>

theorem escape_propagation_counterexample:
  "isMobileMenuOpen (run [ClickHamburger] (mount (Some 0) (Some [1, 2, 3]) [] None)) \<and>
   \<not> propagationStopped (fst (dispatchKeydown (keydown ''Escape'' False)
       (run [ClickHamburger] (mount (Some 0) (Some [1, 2, 3]) [] None))))"
  by code_simp

text \<open>
  C6 (as the code has it). In every reachable state the body's overflow style is
  \<^verbatim>\<open>hidden\<close> when the overlay is open and empty when it is closed.
\<close>

theorem scroll_lock_follows_state:
  assumes "s = run evs (mount h p ids a)"
  shows "bodyOverflow s = (if isMobileMenuOpen s then ''hidden'' else [])"
proof -
  have "settled s" by (simp add: assms reachable_settled)
  then show ?thesis by (simp add: settled_def wired_def)
qed

text \<open>C6, the theorem after the overlay was opened, and after it was closed by Escape.\<close>

theorem scroll_lock_follows_state_witness:
  "bodyOverflow (run [ClickHamburger] (mount (Some 0) (Some [1, 2, 3]) [] None)) = ''hidden'' \<and>
   bodyOverflow (run [ClickHamburger, Keydown ''Escape'' False]
      (mount (Some 0) (Some [1, 2, 3]) [] None)) = []"
proof -
  have o: "isMobileMenuOpen (run [ClickHamburger] (mount (Some 0) (Some [1, 2, 3]) [] None))"
    "\<not> isMobileMenuOpen (run [ClickHamburger, Keydown ''Escape'' False]
       (mount (Some 0) (Some [1, 2, 3]) [] None))"
    by code_simp+
  show ?thesis
    using scroll_lock_follows_state [OF refl, of "[ClickHamburger]" "Some 0" "Some [1, 2, 3]" "[]" None]
      scroll_lock_follows_state [OF refl, of "[ClickHamburger, Keydown ''Escape'' False]" "Some 0" "Some [1, 2, 3]" "[]" None]
      o by simp
qed

text \<open>
  C6 as stated fails. Right after the mount the overlay is closed, the style was never set
  to \<^verbatim>\<open>hidden\<close> and was reset once; after one open/close cycle it was set to
  \<^verbatim>\<open>hidden\<close> once and reset four times.
\<close>

theorem lock_pairing_counterexample:
  "\<not> isMobileMenuOpen (mount (Some 0) (Some [1, 2, 3]) [] None) \<and>
   lockCalls (mount (Some 0) (Some [1, 2, 3]) [] None) = 0 \<and>
   unlockCalls (mount (Some 0) (Some [1, 2, 3]) [] None) = 1 \<and>
   \<not> isMobileMenuOpen (run [ClickHamburger, ClickBackdrop] (mount (Some 0) (Some [1, 2, 3]) [] None)) \<and>
   lockCalls (run [ClickHamburger, ClickBackdrop] (mount (Some 0) (Some [1, 2, 3]) [] None)) = 1 \<and>
   unlockCalls (run [ClickHamburger, ClickBackdrop] (mount (Some 0) (Some [1, 2, 3]) [] None)) = 4"
  by code_simp

text \<open>
  C7 (as the code has it). In every reachable state: \<^verbatim>\<open>closeMobileMenu\<close> on a closed
  overlay changes nothing at all, and calling it twice gives the state of calling it once.
  The only operation that opens is the toggle of the hamburger button: it negates
  \<^verbatim>\<open>isMobileMenuOpen\<close>, and from a closed state it sets the body's overflow to
  \<^verbatim>\<open>hidden\<close> by exactly one assignment.
\<close>

theorem close_idempotent:
  assumes "s = run evs (mount h p ids a)"
  shows "(\<not> isMobileMenuOpen s \<longrightarrow> step ClickBackdrop s = s) \<and>
         step ClickBackdrop (step ClickBackdrop s) = step ClickBackdrop s \<and>
         isMobileMenuOpen (step ClickHamburger s) = (\<not> isMobileMenuOpen s) \<and>
         (\<not> isMobileMenuOpen s \<longrightarrow>
            bodyOverflow (step ClickHamburger s) = ''hidden'' \<and>
            lockCalls (step ClickHamburger s) = lockCalls s + 1)"
proof -
  have st: "settled s" by (simp add: assms reachable_settled)
  have st': "settled (step ClickBackdrop s)" by (rule step_settled [OF st])
  have cl: "\<not> isMobileMenuOpen (step ClickBackdrop s)" by (simp add: close_flush [OF st])
  have a: "\<not> isMobileMenuOpen s \<longrightarrow> step ClickBackdrop s = s"
    by (simp add: close_when_closed [OF st])
  have b: "step ClickBackdrop (step ClickBackdrop s) = step ClickBackdrop s"
    using close_when_closed [OF st' cl] by simp
  have c: "isMobileMenuOpen (step ClickHamburger s) = (\<not> isMobileMenuOpen s)"
    using st by (simp add: flush_isOpen toggleMobileMenu_def prim_defs settled_def)
  have stt: "settled (step ClickHamburger s)" by (rule step_settled [OF st])
  have d: "\<not> isMobileMenuOpen s \<longrightarrow> bodyOverflow (step ClickHamburger s) = ''hidden''"
    using stt c by (simp add: settled_def wired_def)
  have e: "\<not> isMobileMenuOpen s \<longrightarrow> lockCalls (step ClickHamburger s) = lockCalls s + 1"
    by (simp add: lockCalls_def toggle_from_closed [OF st])
  from a b c d e show ?thesis by blast
qed

text \<open>C7, the theorem at the state right after the mount.\<close>

theorem close_idempotent_witness:
  "step ClickBackdrop (mount (Some 0) (Some [1, 2, 3]) [] None) = mount (Some 0) (Some [1, 2, 3]) [] None \<and>
   isMobileMenuOpen (step ClickHamburger (mount (Some 0) (Some [1, 2, 3]) [] None)) \<and>
   bodyOverflow (step ClickHamburger (mount (Some 0) (Some [1, 2, 3]) [] None)) = ''hidden'' \<and>
   lockCalls (step ClickHamburger (mount (Some 0) (Some [1, 2, 3]) [] None)) = 1"
proof -
  have o: "\<not> isMobileMenuOpen (mount (Some 0) (Some [1, 2, 3]) [] None)"
    "lockCalls (mount (Some 0) (Some [1, 2, 3]) [] None) = 0" by code_simp+
  show ?thesis
    using close_idempotent [of "mount (Some 0) (Some [1, 2, 3]) [] None" "[]" "Some 0" "Some [1, 2, 3]" "[]" None] o
    by (simp add: run_def)
qed

text \<open>
  C7 as stated fails: one click on the hamburger button opens the overlay, a second
  consecutive click closes it.
\<close>

theorem open_twice_counterexample:
  "isMobileMenuOpen (step ClickHamburger (mount (Some 0) (Some [1, 2, 3]) [] None)) \<and>
   \<not> isMobileMenuOpen (step ClickHamburger (step ClickHamburger (mount (Some 0) (Some [1, 2, 3]) [] None)))"
  by code_simp

text \<open>
  C8. For a link whose destination starts with \<^verbatim>\<open>#\<close>, in any state: after the click
  the overlay is closed; when an element with the identifier after the \<^verbatim>\<open>#\<close> exists,
  \<^verbatim>\<open>scrollIntoView\<close> was called on it, once; when none exists nothing was scrolled. The
  handler prevents the default navigation, and it has no failing branch.
\<close>

theorem anchor_link_click:
  assumes "startsWith dst ''#''"
  shows "\<not> isMobileMenuOpen (step (ClickLink dst) s) \<and>
         scrolledIntoView (step (ClickLink dst) s) =
           (case getElementById (substring dst 1) s of
              Some target \<Rightarrow> scrolledIntoView s @ [target]
            | None \<Rightarrow> scrolledIntoView s) \<and>
         defaultPrevented (fst (handleLinkClick e dst s))"
proof -
  have "\<not> isMobileMenuOpen (step (ClickLink dst) s)"
    by (simp add: anchor_click_isOpen [OF assms])
  moreover have "scrolledIntoView (step (ClickLink dst) s) =
           (case getElementById (substring dst 1) s of
              Some target \<Rightarrow> scrolledIntoView s @ [target]
            | None \<Rightarrow> scrolledIntoView s)"
    using assms
    by (simp add: flush_frame handleLinkClick_def Let_def prim_defs split: option.splits)
  moreover have "defaultPrevented (fst (handleLinkClick e dst s))"
    using assms by (simp add: handleLinkClick_def Let_def)
  ultimately show ?thesis by blast
qed

text \<open>
  C8, the theorem in an open state for \<^verbatim>\<open>#pricing\<close>, which resolves to element 7, and for
  \<^verbatim>\<open>#missing\<close>, which resolves to nothing.
\<close>

theorem anchor_link_click_witness:
  "\<not> isMobileMenuOpen (step (ClickLink ''#pricing'')
      (run [ClickHamburger] (mount (Some 0) (Some [1, 2, 3]) [(''pricing'', 7)] None))) \<and>
   scrolledIntoView (step (ClickLink ''#pricing'')
      (run [ClickHamburger] (mount (Some 0) (Some [1, 2, 3]) [(''pricing'', 7)] None))) = [7] \<and>
   \<not> isMobileMenuOpen (step (ClickLink ''#missing'')
      (run [ClickHamburger] (mount (Some 0) (Some [1, 2, 3]) [(''pricing'', 7)] None))) \<and>
   scrolledIntoView (step (ClickLink ''#missing'')
      (run [ClickHamburger] (mount (Some 0) (Some [1, 2, 3]) [(''pricing'', 7)] None))) = []"
proof -
  have a: "startsWith ''#pricing'' ''#''" "startsWith ''#missing'' ''#''"
    by (simp_all add: startsWith_def)
  have g: "getElementById (substring ''#pricing'' 1)
      (run [ClickHamburger] (mount (Some 0) (Some [1, 2, 3]) [(''pricing'', 7)] None)) = Some 7"
    "getElementById (substring ''#missing'' 1)
      (run [ClickHamburger] (mount (Some 0) (Some [1, 2, 3]) [(''pricing'', 7)] None)) = None"
    "scrolledIntoView (run [ClickHamburger] (mount (Some 0) (Some [1, 2, 3]) [(''pricing'', 7)] None)) = []"
    by code_simp+
  show ?thesis
    using anchor_link_click [OF a(1), of "run [ClickHamburger] (mount (Some 0) (Some [1, 2, 3]) [(''pricing'', 7)] None)" freshEvent]
      anchor_link_click [OF a(2), of "run [ClickHamburger] (mount (Some 0) (Some [1, 2, 3]) [(''pricing'', 7)] None)" freshEvent]
      g by simp
qed

text \<open>
  C9, the code at a failing input. A button with an analytics id, an \<^verbatim>\<open>onClick\<close> and no
  href: when the push throws, \<^verbatim>\<open>handleClick\<close> ends with that exception and \<^verbatim>\<open>onClick\<close>
  has not run, whereas with no data layer at all \<^verbatim>\<open>onClick\<close> runs. The call-to-action
  button of the mobile panel ends with the exception as well.
\<close>

theorem throwing_sink_propagates:
  "handleClick \<lparr>disabled = False, onClick = Some Suc, href = None,
       analyticsId = Some ''hero-cta'', analyticsLocation = Some ''demo-page'',
       children = Text ''Tracked Button''\<rparr> (Some \<lparr>dataLayer = Some ThrowingLayer\<rparr>) (0::nat)
     = Inl PushFailed \<and>
   handleClick \<lparr>disabled = False, onClick = Some Suc, href = None,
       analyticsId = Some ''hero-cta'', analyticsLocation = Some ''demo-page'',
       children = Text ''Tracked Button''\<rparr> (Some \<lparr>dataLayer = None\<rparr>) (0::nat)
     = Inr (Some \<lparr>dataLayer = None\<rparr>, 1) \<and>
   handleClick (mobileCtaProps ''Get Started'' ''#contact'' None)
       (Some \<lparr>dataLayer = Some ThrowingLayer\<rparr>)
       (run [ClickHamburger] (mount (Some 0) (Some [1, 2, 3]) [] None))
     = Inl PushFailed"
  by (simp add: handleClick_def trackClick_def truthy_def orElse_def mobileCtaProps_def)

text \<open>
  C10. For a Button whose href is truthy, \<^verbatim>\<open>handleClick\<close> returns what it returns without
  the \<^verbatim>\<open>onClick\<close> prop, and whatever the callback could change is left as it was: only
  the analytics push has run. For the call-to-action button of the mobile panel with a
  non-empty href this means that no \<^verbatim>\<open>closeMobileMenu\<close> was called: the state of the
  overlay is unchanged.
\<close>

theorem href_button_skips_onClick:
  assumes "truthy (href p)" and "ctaHref \<noteq> []"
  shows "handleClick p win w = handleClick (p\<lparr>onClick := None\<rparr>) win w \<and>
         (case handleClick p win w of Inl x \<Rightarrow> True | Inr r \<Rightarrow> snd r = w) \<and>
         (case handleClick (mobileCtaProps ctaLabel ctaHref ctaOnClick) win s of
            Inl x \<Rightarrow> True
          | Inr r \<Rightarrow> snd r = s)"
proof (intro conjI)
  show "handleClick p win w = handleClick (p\<lparr>onClick := None\<rparr>) win w"
    by (rule handleClick_href [OF assms(1)])
next
  show "case handleClick p win w of Inl x \<Rightarrow> True | Inr r \<Rightarrow> snd r = w"
  proof (cases "handleClick p win w")
    case (Inl x)
    then show ?thesis by simp
  next
    case (Inr r)
    then have "handleClick p win w = Inr (fst r, snd r)" by simp
    then have "snd r = w" by (rule handleClick_href_state [OF assms(1)])
    with Inr show ?thesis by simp
  qed
next
  have t: "truthy (href (mobileCtaProps ctaLabel ctaHref ctaOnClick))"
    using assms(2) by (simp add: mobileCtaProps_def truthy_def)
  show "case handleClick (mobileCtaProps ctaLabel ctaHref ctaOnClick) win s of
          Inl x \<Rightarrow> True
        | Inr r \<Rightarrow> snd r = s"
  proof (cases "handleClick (mobileCtaProps ctaLabel ctaHref ctaOnClick) win s")
    case (Inl x)
    then show ?thesis by simp
  next
    case (Inr r)
    then have "handleClick (mobileCtaProps ctaLabel ctaHref ctaOnClick) win s = Inr (fst r, snd r)"
      by simp
    then have "snd r = s" by (rule handleClick_href_state [OF t])
    with Inr show ?thesis by simp
  qed
qed

text \<open>
  C10, the theorem at the desktop call-to-action button, and the mobile one in an open state.
\<close>

theorem href_button_skips_onClick_witness:
  "truthy (href \<lparr>disabled = False, onClick = Some Suc, href = Some ''#contact'',
       analyticsId = Some ''nav-cta'', analyticsLocation = Some ''navigation'',
       children = Text ''Get Started''\<rparr>) \<and>
   handleClick \<lparr>disabled = False, onClick = Some Suc, href = Some ''#contact'',
       analyticsId = Some ''nav-cta'', analyticsLocation = Some ''navigation'',
       children = Text ''Get Started''\<rparr> (Some \<lparr>dataLayer = Some (ArrayLayer [])\<rparr>) (0::nat)
   = handleClick \<lparr>disabled = False, onClick = None, href = Some ''#contact'',
       analyticsId = Some ''nav-cta'', analyticsLocation = Some ''navigation'',
       children = Text ''Get Started''\<rparr> (Some \<lparr>dataLayer = Some (ArrayLayer [])\<rparr>) 0 \<and>
   handleClick (mobileCtaProps ''Get Started'' ''#contact'' None)
       (Some \<lparr>dataLayer = None\<rparr>)
       (run [ClickHamburger] (mount (Some 0) (Some [1, 2, 3]) [] None))
   = Inr (Some \<lparr>dataLayer = None\<rparr>,
          run [ClickHamburger] (mount (Some 0) (Some [1, 2, 3]) [] None))"
proof -
  have t: "truthy (href \<lparr>disabled = False, onClick = Some Suc, href = Some ''#contact'',
       analyticsId = Some ''nav-cta'', analyticsLocation = Some ''navigation'',
       children = Text ''Get Started''\<rparr>)" by (simp add: truthy_def)
  have n: "''#contact'' \<noteq> []" by simp
  have c: "handleClick (mobileCtaProps ''Get Started'' ''#contact'' None)
       (Some \<lparr>dataLayer = None\<rparr>)
       (run [ClickHamburger] (mount (Some 0) (Some [1, 2, 3]) [] None))
   = Inr (Some \<lparr>dataLayer = None\<rparr>,
          run [ClickHamburger] (mount (Some 0) (Some [1, 2, 3]) [] None))"
    by (simp add: handleClick_def trackClick_def truthy_def mobileCtaProps_def)
  show ?thesis
    using t c href_button_skips_onClick [OF t n, THEN conjunct1,
        of "Some \<lparr>dataLayer = Some (ArrayLayer [])\<rparr>" 0]
    by simp
qed

end
